theory Spec2Isabelle
  imports Complex_Main "HOL-Library.Word"
begin

section \<open>Streaming reads from an FTDI device (ftdi\_stream.c)\<close>

text \<open>
  A shallow embedding of \<^verbatim>\<open>src/ftdi_stream.c\<close>: the completion handler
  \<^verbatim>\<open>ftdi_stream_read_cb\<close> and the driver \<^verbatim>\<open>ftdi_stream_read\<close>.

  Conventions of the embedding.
  \<^item> A C \<^verbatim>\<open>int\<close> is a HOL \<open>int\<close>; signed overflow is undefined behaviour in C and
    lies outside the model. \<^verbatim>\<open>uint64_t\<close> is \<open>64 word\<close>, whose arithmetic wraps.
  \<^item> A C \<^verbatim>\<open>double\<close> is a HOL \<open>real\<close>: rounding is not modelled. Only the
    control flow around the rate computation is used below, never a rounded value.
  \<^item> A pointer into a transfer buffer is the buffer's contents and an offset.
  \<^item> Everything the code calls outside this file (libusb, the C allocator, the clock,
    the mode switch and flush primitives of ftdi.c, the consumer callback) is an input:
    the value the call returns is read from an environment record. Calls that acquire
    or release a resource, and every call of the consumer callback, are written to an
    event list in the order the code makes them.
  \<^item> Completion handlers run only inside \<^verbatim>\<open>libusb_handle_events_timeout\<close>.
\<close>

subsection \<open>Constants of libusb.h and ftdi.h\<close>

text \<open>The values of libusb.h (enum libusb\_error, enum libusb\_transfer\_status).\<close>

definition LIBUSB_TRANSFER_COMPLETED :: int where
  "LIBUSB_TRANSFER_COMPLETED = 0"

definition LIBUSB_ERROR_IO :: int where
  "LIBUSB_ERROR_IO = - 1"

definition LIBUSB_ERROR_INTERRUPTED :: int where
  "LIBUSB_ERROR_INTERRUPTED = - 10"

definition LIBUSB_ERROR_NO_MEM :: int where
  "LIBUSB_ERROR_NO_MEM = - 11"

text \<open>
  Modelled from the spec: \<^verbatim>\<open>enum ftdi_chip_type\<close> of ftdi.h is not among the sources.
  The driver only asks whether the chip is one of the two that know the synchronous FIFO
  mode, so every other chip is \<open>TYPE_OTHER\<close>.
\<close>

datatype ftdi_chip_type = TYPE_2232H | TYPE_232H | TYPE_OTHER

text \<open>The fields of \<^verbatim>\<open>struct ftdi_context\<close> that the driver reads.\<close>

record ftdi_context =
  chip_type :: ftdi_chip_type
  max_packet_size :: int
  usb_read_timeout :: int

subsection \<open>Data model\<close>

type_synonym byte = "8 word"

record timespec =
  tv_sec :: int
  tv_nsec :: int

record size_and_time =
  total_bytes :: "64 word"
  time :: timespec

record ftdi_stream_progress =
  first :: size_and_time
  prev :: size_and_time
  current :: size_and_time
  total_time :: real
  total_rate :: real
  current_rate :: real

text \<open>
  The arguments of one call of the consumer callback: either a data delivery
  \<^verbatim>\<open>callback(ptr + 2, payloadLen, NULL, userdata)\<close>, given as the transfer buffer, the
  offset of the pointer in it and the length, or a progress report
  \<^verbatim>\<open>callback(NULL, 0, progress, userdata)\<close>.
\<close>

datatype cb_arg =
    Data "byte list" int int
  | Progress ftdi_stream_progress

text \<open>
  The consumer callback with its \<^verbatim>\<open>userdata\<close>: it returns an \<^verbatim>\<open>int\<close> and may change
  what \<^verbatim>\<open>userdata\<close> points to.
\<close>

type_synonym 'u ftdi_stream_callback = "cb_arg \<Rightarrow> 'u \<Rightarrow> int \<times> 'u"

record 'u FTDIStreamState =
  callback :: "'u ftdi_stream_callback"
  userdata :: 'u
  packetsize :: int
  activity :: int
  result :: int
  progress :: ftdi_stream_progress

text \<open>
  A completed \<^verbatim>\<open>struct libusb_transfer\<close> as the handler reads it. \<open>xfer_id\<close> names the
  transfer object (its index in the pool).
\<close>

record libusb_transfer =
  xfer_id :: nat
  status :: int
  buffer :: "byte list"
  actual_length :: int

text \<open>The calls that acquire or release a resource, and the calls of the consumer.\<close>

datatype event =
    Calloc_transfers
  | Alloc_transfer nat
  | Malloc_buffer nat int
  | Submit_transfer nat
  | Free_buffer nat
  | Free_transfer nat
  | Free_transfers
  | Callback cb_arg int

subsection \<open>C arithmetic\<close>

text \<open>Integer division of C truncates towards zero.\<close>

definition c_div :: "int \<Rightarrow> int \<Rightarrow> int" where
  "c_div a b = sgn a * sgn b * (\<bar>a\<bar> div \<bar>b\<bar>)"

definition timespec_diff :: "timespec \<Rightarrow> timespec \<Rightarrow> real" where
  "timespec_diff a b =
     real_of_int (tv_sec a - tv_sec b) + (1 / 1000000000) * real_of_int (tv_nsec a - tv_nsec b)"

subsection \<open>The completion handler\<close>

text \<open>
  The loop \<^verbatim>\<open>for (i = 0; i < numPackets; i++)\<close> of the handler. \<open>ptr\<close> is the offset of
  the C pointer in the buffer, \<open>len\<close> the variable \<^verbatim>\<open>length\<close>, \<open>res\<close> the last value the
  consumer returned, \<open>evs\<close> the calls made so far.
\<close>

function packet_loop ::
  "int \<Rightarrow> int \<Rightarrow> int \<Rightarrow> byte list \<Rightarrow> int \<Rightarrow> int \<Rightarrow> int \<Rightarrow> 'u FTDIStreamState \<Rightarrow> event list
     \<Rightarrow> int \<times> 'u FTDIStreamState \<times> event list" where
  "packet_loop i numPackets packet_size buf ptr len res state evs =
     (if i < numPackets then
        let packetLen = (if len > packet_size then packet_size else len);
            payloadLen = packetLen - 2;
            p = progress state;
            state1 = state\<lparr>progress :=
                       p\<lparr>current := (current p)\<lparr>total_bytes :=
                           total_bytes (current p) + word_of_int payloadLen\<rparr>\<rparr>\<rparr>;
            r = callback state1 (Data buf (ptr + 2) payloadLen) (userdata state1);
            state2 = state1\<lparr>userdata := snd r\<rparr>
        in packet_loop (i + 1) numPackets packet_size buf (ptr + packetLen) (len - packetLen)
             (fst r) state2 (evs @ [Callback (Data buf (ptr + 2) payloadLen) (fst r)])
      else (res, state, evs))"
  by pat_completeness auto
termination
  by (relation "measure (\<lambda>(i, numPackets, _). nat (numPackets - i))") auto

text \<open>
  \<^verbatim>\<open>ftdi_stream_read_cb\<close>. \<open>submit_res\<close> is what \<^verbatim>\<open>libusb_submit_transfer\<close> returns if
  the handler calls it. The result is the new state and the calls the handler made.
  The diagnostic on stderr is not modelled; \<^verbatim>\<open>transfer->status = -1\<close> before the
  resubmission is not either, since the next completion brings its own status.
\<close>

definition ftdi_stream_read_cb ::
  "int \<Rightarrow> libusb_transfer \<Rightarrow> 'u FTDIStreamState \<Rightarrow> 'u FTDIStreamState \<times> event list" where
  "ftdi_stream_read_cb submit_res transfer state0 =
     (let packet_size = packetsize state0;
          state = state0\<lparr>activity := activity state0 + 1\<rparr>
      in if status transfer = LIBUSB_TRANSFER_COMPLETED then
           let len = actual_length transfer;
               numPackets = c_div (len + packet_size - 1) packet_size;
               l = packet_loop 0 numPackets packet_size (buffer transfer) 0 len 0 state [];
               res = fst l;
               state1 = fst (snd l);
               evs = snd (snd l)
           in if res \<noteq> 0 then
                (state1, evs @ [Free_buffer (xfer_id transfer), Free_transfer (xfer_id transfer)])
              else
                (state1\<lparr>result := submit_res\<rparr>, evs @ [Submit_transfer (xfer_id transfer)])
         else (state\<lparr>result := LIBUSB_ERROR_IO\<rparr>, []))"

subsection \<open>The environment of one session\<close>

text \<open>What the three steps of building one pool slot return.\<close>

record slot_env =
  alloc_ok :: bool
  malloc_ok :: bool
  submit_res :: int

text \<open>
  One completion that libusb dispatches: the transfer as completed, and what
  \<^verbatim>\<open>libusb_submit_transfer\<close> returns if the handler resubmits it.
\<close>

record completion =
  transfer :: libusb_transfer
  resubmit_res :: int

text \<open>
  One iteration of the driver loop as the environment decides it: the completions the
  first \<^verbatim>\<open>libusb_handle_events_timeout\<close> dispatches and its return value, the same
  for the second call (made only after \<^verbatim>\<open>LIBUSB_ERROR_INTERRUPTED\<close>), and the clock.
\<close>

record dispatch_env =
  completed :: "completion list"
  xfer_err :: int
  completed_retry :: "completion list"
  xfer_err_retry :: int
  now :: timespec

record env =
  bitmode_reset_res :: int
  tcioflush_res :: int
  calloc_ok :: bool
  slot :: "nat \<Rightarrow> slot_env"
  bitmode_syncff_res :: int
  start_time :: timespec
  dispatch :: "dispatch_env list"

subsection \<open>The driver\<close>

text \<open>The completion handlers that one call of \<^verbatim>\<open>libusb_handle_events_timeout\<close> runs.\<close>

fun handle_events ::
  "completion list \<Rightarrow> 'u FTDIStreamState \<Rightarrow> 'u FTDIStreamState \<times> event list" where
  "handle_events [] state = (state, [])"
| "handle_events (c # cs) state =
     (let h = ftdi_stream_read_cb (resubmit_res c) (transfer c) state;
          r = handle_events cs (fst h)
      in (fst r, snd h @ snd r))"

text \<open>
  The call of \<^verbatim>\<open>libusb_handle_events_timeout\<close> and its one retry: \<^verbatim>\<open>xfer_err\<close>, the
  state and the calls made.
\<close>

definition dispatch_events ::
  "dispatch_env \<Rightarrow> 'u FTDIStreamState \<Rightarrow> int \<times> 'u FTDIStreamState \<times> event list" where
  "dispatch_events it state =
     (let h = handle_events (completed it) state
      in if xfer_err it = LIBUSB_ERROR_INTERRUPTED then
           let h2 = handle_events (completed_retry it) (fst h)
           in (xfer_err_retry it, fst h2, snd h @ snd h2)
         else (xfer_err it, fst h, snd h))"

text \<open>\<^verbatim>\<open>if (!state.result) state.result = xfer_err;\<close>\<close>

definition adopt_error :: "int \<Rightarrow> 'u FTDIStreamState \<Rightarrow> 'u FTDIStreamState" where
  "adopt_error e state = (if result state = 0 then state\<lparr>result := e\<rparr> else state)"

text \<open>\<^verbatim>\<open>if (state.activity == 0) state.result = 1; else state.activity = 0;\<close>\<close>

definition stall_check :: "'u FTDIStreamState \<Rightarrow> 'u FTDIStreamState" where
  "stall_check state =
     (if activity state = 0 then state\<lparr>result := 1\<rparr> else state\<lparr>activity := 0\<rparr>)"

text \<open>The periodic progress report at the end of the loop body; the interval is 1 second.\<close>

definition report_progress ::
  "timespec \<Rightarrow> 'u FTDIStreamState \<Rightarrow> 'u FTDIStreamState \<times> event list" where
  "report_progress t state =
     (let p = progress state
      in if timespec_diff t (time (current p)) \<ge> 1 then
           let p1 = p\<lparr>current := (current p)\<lparr>time := t\<rparr>\<rparr>;
               p2 = p1\<lparr>total_time := timespec_diff (time (current p1)) (time (first p1))\<rparr>;
               p3 = (if total_bytes (prev p2) \<noteq> 0 then
                       let currentTime = timespec_diff (time (current p2)) (time (prev p2))
                       in p2\<lparr>total_rate :=
                               real (unat (total_bytes (current p2))) / total_time p2,
                             current_rate :=
                               real (unat (total_bytes (current p2) - total_bytes (prev p2)))
                                 / currentTime\<rparr>
                     else p2);
               r = callback state (Progress p3) (userdata state);
               p4 = p3\<lparr>prev := current p3\<rparr>
           in (state\<lparr>userdata := snd r, progress := p4\<rparr>, [Callback (Progress p3) (fst r)])
         else (state, []))"

definition loop_body ::
  "dispatch_env \<Rightarrow> 'u FTDIStreamState \<Rightarrow> 'u FTDIStreamState \<times> event list" where
  "loop_body it state =
     (let d = dispatch_events it state;
          state1 = stall_check (adopt_error (fst d) (fst (snd d)));
          u = report_progress (now it) state1
      in (fst u, snd (snd d) @ snd u))"

text \<open>
  The loop \<^verbatim>\<open>do { ... } while (!state.result)\<close> over the iterations the environment
  provides. The first component says whether the loop was left; it is \<open>False\<close> when the
  iterations ran out with \<^verbatim>\<open>state.result\<close> still 0.
\<close>

fun driver_loop ::
  "dispatch_env list \<Rightarrow> 'u FTDIStreamState \<Rightarrow> bool \<times> 'u FTDIStreamState \<times> event list" where
  "driver_loop [] state = (False, state, [])"
| "driver_loop (it # its) state =
     (let b = loop_body it state
      in if result (fst b) \<noteq> 0 then (True, fst b, snd b)
         else let r = driver_loop its (fst b)
              in (fst r, fst (snd r), snd b @ snd (snd r)))"

text \<open>
  The loop that sets up all transfers. The first component is \<open>False\<close> when the loop was
  left by \<^verbatim>\<open>goto cleanup\<close>; the second is \<^verbatim>\<open>err\<close>.
\<close>

function setup_loop ::
  "int \<Rightarrow> int \<Rightarrow> int \<Rightarrow> (nat \<Rightarrow> slot_env) \<Rightarrow> int \<Rightarrow> event list \<Rightarrow> bool \<times> int \<times> event list" where
  "setup_loop xferIndex num_transfers bufferSize slots err evs =
     (if xferIndex < num_transfers then
        let s = slots (nat xferIndex);
            k = nat xferIndex
        in if \<not> alloc_ok s then (False, LIBUSB_ERROR_NO_MEM, evs)
           else if \<not> malloc_ok s then (False, LIBUSB_ERROR_NO_MEM, evs @ [Alloc_transfer k])
           else if submit_res s \<noteq> 0 then
             (False, submit_res s,
              evs @ [Alloc_transfer k, Malloc_buffer k bufferSize, Submit_transfer k])
           else setup_loop (xferIndex + 1) num_transfers bufferSize slots (submit_res s)
                  (evs @ [Alloc_transfer k, Malloc_buffer k bufferSize, Submit_transfer k])
      else (True, err, evs))"
  by pat_completeness auto
termination
  by (relation "measure (\<lambda>(xferIndex, num_transfers, _). nat (num_transfers - xferIndex))") auto

text \<open>The label \<^verbatim>\<open>cleanup\<close>: \<open>transfers\<close> says whether the pointer array is non-null.\<close>

definition cleanup ::
  "bool \<Rightarrow> int \<Rightarrow> 'u FTDIStreamState \<Rightarrow> event list \<Rightarrow> int option \<times> event list" where
  "cleanup transfers err state evs =
     (Some (if err \<noteq> 0 then err else result state),
      evs @ (if transfers then [Free_transfers] else []))"

definition zero_timespec :: timespec where
  "zero_timespec = \<lparr>tv_sec = 0, tv_nsec = 0\<rparr>"

definition zero_size_and_time :: size_and_time where
  "zero_size_and_time = \<lparr>total_bytes = 0, time = zero_timespec\<rparr>"

text \<open>The zero-initialised \<^verbatim>\<open>struct ftdi_stream_progress\<close> of a new state.\<close>

definition zero_progress :: ftdi_stream_progress where
  "zero_progress =
     \<lparr>first = zero_size_and_time, prev = zero_size_and_time, current = zero_size_and_time,
      total_time = 0, total_rate = 0, current_rate = 0\<rparr>"

text \<open>\<^verbatim>\<open>FTDIStreamState state = { callback, userdata, ftdi->max_packet_size, 1 }\<close>\<close>

definition initial_state ::
  "ftdi_context \<Rightarrow> 'u ftdi_stream_callback \<Rightarrow> 'u \<Rightarrow> 'u FTDIStreamState" where
  "initial_state ftdi cb ud =
     \<lparr>callback = cb, userdata = ud, packetsize = max_packet_size ftdi, activity = 1,
      result = 0, progress = zero_progress\<rparr>"

text \<open>
  \<^verbatim>\<open>ftdi_stream_read\<close>. The result is the value returned, or \<open>None\<close> when the iterations
  of the environment ran out inside the driver loop, and the calls made.
\<close>

definition ftdi_stream_read ::
  "ftdi_context \<Rightarrow> 'u ftdi_stream_callback \<Rightarrow> 'u \<Rightarrow> int \<Rightarrow> int \<Rightarrow> env
     \<Rightarrow> int option \<times> event list" where
  "ftdi_stream_read ftdi cb ud packets_per_transfer num_transfers e =
     (let state = initial_state ftdi cb ud;
          bufferSize = packets_per_transfer * max_packet_size ftdi
      in if chip_type ftdi \<noteq> TYPE_2232H \<and> chip_type ftdi \<noteq> TYPE_232H then (Some 1, [])
         else if bitmode_reset_res e < 0 then (Some 1, [])
         else if tcioflush_res e < 0 then (Some 1, [])
         else if \<not> calloc_ok e then cleanup False LIBUSB_ERROR_NO_MEM state []
         else
           let s = setup_loop 0 num_transfers bufferSize (slot e) 0 [Calloc_transfers]
           in if \<not> fst s then cleanup True (fst (snd s)) state (snd (snd s))
              else if bitmode_syncff_res e < 0 then
                cleanup True (fst (snd s)) state (snd (snd s))
              else
                let p = progress state;
                    state1 = state\<lparr>progress := p\<lparr>first := (first p)\<lparr>time := start_time e\<rparr>\<rparr>\<rparr>;
                    r = driver_loop (dispatch e) state1
                in if fst r then
                     cleanup True (fst (snd s)) (fst (snd r)) (snd (snd s) @ snd (snd r))
                   else (None, snd (snd s) @ snd (snd r)))"

text \<open>The accessors of the progress record.\<close>

definition ftdi_stream_total_bytes :: "ftdi_stream_progress \<Rightarrow> 64 word" where
  "ftdi_stream_total_bytes p = total_bytes (current p)"

definition ftdi_stream_total_time :: "ftdi_stream_progress \<Rightarrow> real" where
  "ftdi_stream_total_time p = total_time p"

definition ftdi_stream_total_rate :: "ftdi_stream_progress \<Rightarrow> real" where
  "ftdi_stream_total_rate p = total_rate p"

definition ftdi_stream_current_rate :: "ftdi_stream_progress \<Rightarrow> real" where
  "ftdi_stream_current_rate p = current_rate p"

subsection \<open>Reading an event list\<close>

text \<open>The arguments of the consumer's calls, in order.\<close>

fun callback_calls :: "event list \<Rightarrow> cb_arg list" where
  "callback_calls [] = []"
| "callback_calls (Callback a r # es) = a # callback_calls es"
| "callback_calls (e # es) = callback_calls es"

fun payload_length :: "cb_arg \<Rightarrow> int" where
  "payload_length (Data b off n) = n"
| "payload_length (Progress p) = 0"

text \<open>The progress records reported to the consumer, in order.\<close>

fun reports :: "event list \<Rightarrow> ftdi_stream_progress list" where
  "reports [] = []"
| "reports (Callback (Progress p) r # es) = p # reports es"
| "reports (e # es) = reports es"



text \<open>
  What delivering packets leaves alone: everything but \<^verbatim>\<open>userdata\<close> and
  \<^verbatim>\<open>progress.current.total_bytes\<close>.
\<close>

definition delivery_frame :: "'u FTDIStreamState \<Rightarrow> 'u FTDIStreamState \<Rightarrow> bool" where
  "delivery_frame st st' \<longleftrightarrow>
     callback st' = callback st \<and> packetsize st' = packetsize st \<and>
     activity st' = activity st \<and> result st' = result st \<and>
     first (progress st') = first (progress st) \<and> prev (progress st') = prev (progress st) \<and>
     time (current (progress st')) = time (current (progress st)) \<and>
     total_time (progress st') = total_time (progress st) \<and>
     total_rate (progress st') = total_rate (progress st) \<and>
     current_rate (progress st') = current_rate (progress st)"

subsection \<open>One iteration of the packet loop, named\<close>

text \<open>The pieces of the body of \<open>packet_loop\<close>, used to state its unfolding.\<close>

definition packet_len :: "int \<Rightarrow> int \<Rightarrow> int" where
  "packet_len P len = (if len > P then P else len)"

definition packet_call :: "int \<Rightarrow> byte list \<Rightarrow> int \<Rightarrow> int \<Rightarrow> cb_arg" where
  "packet_call P buf ptr len = Data buf (ptr + 2) (packet_len P len - 2)"

definition add_bytes :: "int \<Rightarrow> 'u FTDIStreamState \<Rightarrow> 'u FTDIStreamState" where
  "add_bytes n st =
     st\<lparr>progress := (progress st)\<lparr>current := (current (progress st))\<lparr>total_bytes :=
          total_bytes (current (progress st)) + word_of_int n\<rparr>\<rparr>\<rparr>"

definition packet_res :: "int \<Rightarrow> byte list \<Rightarrow> int \<Rightarrow> int \<Rightarrow> 'u FTDIStreamState \<Rightarrow> int" where
  "packet_res P buf ptr len st =
     fst (callback st (packet_call P buf ptr len) (userdata st))"

definition packet_state ::
  "int \<Rightarrow> byte list \<Rightarrow> int \<Rightarrow> int \<Rightarrow> 'u FTDIStreamState \<Rightarrow> 'u FTDIStreamState" where
  "packet_state P buf ptr len st =
     (add_bytes (packet_len P len - 2) st)
       \<lparr>userdata := snd (callback st (packet_call P buf ptr len) (userdata st))\<rparr>"

subsection \<open>Vocabulary for sessions\<close>

text \<open>The state with which the driver loop is entered.\<close>

definition started ::
  "ftdi_context \<Rightarrow> 'u ftdi_stream_callback \<Rightarrow> 'u \<Rightarrow> env \<Rightarrow> 'u FTDIStreamState" where
  "started ftdi cb ud e =
     (initial_state ftdi cb ud)\<lparr>progress := (progress (initial_state ftdi cb ud))
        \<lparr>first := (first (progress (initial_state ftdi cb ud)))\<lparr>time := start_time e\<rparr>\<rparr>\<rparr>"

text \<open>Every slot of the pool is allocated, gets its buffer and is submitted.\<close>

definition slots_ok :: "int \<Rightarrow> (nat \<Rightarrow> slot_env) \<Rightarrow> bool" where
  "slots_ok num_transfers slots \<longleftrightarrow>
     (\<forall>k. int k < num_transfers \<longrightarrow>
        alloc_ok (slots k) \<and> malloc_ok (slots k) \<and> submit_res (slots k) = 0)"

text \<open>The value of \<^verbatim>\<open>xfer_err\<close> after the call of the dispatcher and its one retry.\<close>

definition dispatch_result :: "dispatch_env \<Rightarrow> int" where
  "dispatch_result it =
     (if xfer_err it = LIBUSB_ERROR_INTERRUPTED then xfer_err_retry it else xfer_err it)"

text \<open>
  The rate fields of a reported progress record hold what the two assignments of the
  driver compute from the record's other fields.
\<close>

definition rates_computed :: "ftdi_stream_progress \<Rightarrow> bool" where
  "rates_computed p \<longleftrightarrow>
     total_rate p = real (unat (total_bytes (current p))) / total_time p \<and>
     current_rate p = real (unat (total_bytes (current p) - total_bytes (prev p)))
                        / timespec_diff (time (current p)) (time (prev p))"

text \<open>
  What one report leaves for the next: the sample that becomes \<^verbatim>\<open>prev\<close>, and the two
  rates. \<open>report_key\<close> reads it off a reported record, \<open>state_key\<close> off the state
  between two reports.
\<close>

type_synonym report_key = "size_and_time \<times> real \<times> real"

definition report_key :: "ftdi_stream_progress \<Rightarrow> report_key" where
  "report_key p = (current p, total_rate p, current_rate p)"

definition state_key :: "ftdi_stream_progress \<Rightarrow> report_key" where
  "state_key p = (prev p, total_rate p, current_rate p)"

text \<open>
  A report that follows the key \<open>k\<close>: its \<^verbatim>\<open>prev\<close> is the sample of \<open>k\<close>, and its rates
  are computed when that sample counts at least one byte and are those of \<open>k\<close> otherwise.
\<close>

definition report_step :: "report_key \<Rightarrow> ftdi_stream_progress \<Rightarrow> bool" where
  "report_step k p \<longleftrightarrow>
     prev p = fst k \<and>
     (if total_bytes (fst k) \<noteq> 0 then rates_computed p
      else total_rate p = fst (snd k) \<and> current_rate p = snd (snd k))"

fun report_chain :: "report_key \<Rightarrow> ftdi_stream_progress list \<Rightarrow> bool" where
  "report_chain k [] = True"
| "report_chain k (p # ps) = (report_step k p \<and> report_chain (report_key p) ps)"

definition last_key :: "report_key \<Rightarrow> ftdi_stream_progress list \<Rightarrow> report_key" where
  "last_key k ps = (if ps = [] then k else report_key (last ps))"

subsection \<open>Concrete inputs\<close>

text \<open>An FT232H with 512-byte packets, and transfers of 8 packets.\<close>

definition ft232h :: ftdi_context where
  "ft232h = \<lparr>chip_type = TYPE_232H, max_packet_size = 512, usb_read_timeout = 5000\<rparr>"

definition zero_buffer :: "byte list" where
  "zero_buffer = replicate 4096 0"

definition completed_xfer :: "nat \<Rightarrow> int \<Rightarrow> libusb_transfer" where
  "completed_xfer k n =
     \<lparr>xfer_id = k, status = LIBUSB_TRANSFER_COMPLETED, buffer = zero_buffer, actual_length = n\<rparr>"

text \<open>A consumer that never asks to stop, and one that always does.\<close>

definition keep_going :: "unit ftdi_stream_callback" where
  "keep_going a u = (0, u)"

definition stop_now :: "unit ftdi_stream_callback" where
  "stop_now a u = (1, u)"

text \<open>A transfer that completed with \<^verbatim>\<open>LIBUSB_TRANSFER_ERROR\<close>.\<close>

definition failed_xfer :: "nat \<Rightarrow> libusb_transfer" where
  "failed_xfer k = \<lparr>xfer_id = k, status = 1, buffer = zero_buffer, actual_length = 0\<rparr>"

text \<open>
  Environments in which every primitive succeeds, the session starts at second 100 and
  each iteration dispatches the given completions, returns 0 and reads the given clock.
\<close>

definition ok_slot :: slot_env where
  "ok_slot = \<lparr>alloc_ok = True, malloc_ok = True, submit_res = 0\<rparr>"

definition at_second :: "int \<Rightarrow> timespec" where
  "at_second s = \<lparr>tv_sec = s, tv_nsec = 0\<rparr>"

definition iteration :: "completion list \<Rightarrow> int \<Rightarrow> dispatch_env" where
  "iteration cs s =
     \<lparr>completed = cs, xfer_err = 0, completed_retry = [], xfer_err_retry = 0, now = at_second s\<rparr>"

definition done_ok :: "nat \<Rightarrow> int \<Rightarrow> completion" where
  "done_ok k n = \<lparr>transfer = completed_xfer k n, resubmit_res = 0\<rparr>"

definition done_failed :: "nat \<Rightarrow> completion" where
  "done_failed k = \<lparr>transfer = failed_xfer k, resubmit_res = 0\<rparr>"

definition session :: "dispatch_env list \<Rightarrow> env" where
  "session its =
     \<lparr>bitmode_reset_res = 0, tcioflush_res = 0, calloc_ok = True, slot = (\<lambda>k. ok_slot),
      bitmode_syncff_res = 0, start_time = at_second 100, dispatch = its\<rparr>"

text \<open>A consumer that counts its data deliveries and asks to stop from delivery \<open>n\<close> on.\<close>

definition stop_after :: "nat \<Rightarrow> nat ftdi_stream_callback" where
  "stop_after n a u =
     (case a of Data b off len \<Rightarrow> (if n \<le> u then 1 else 0, u + 1) | Progress p \<Rightarrow> (0, u))"

text \<open>
  Two transfers of one packet each complete twice; the consumer asks to stop at the
  second round; then nothing completes.
\<close>

definition stop_session :: env where
  "stop_session =
     session [iteration [done_ok 0 512, done_ok 1 512] 100,
              iteration [done_ok 0 512, done_ok 1 512] 101,
              iteration [] 106]"

text \<open>The only transfer fails.\<close>

definition io_error_session :: env where
  "io_error_session = session [iteration [done_failed 0] 100]"

text \<open>Nothing completes during two timeouts of 5 seconds.\<close>

definition stall_session :: env where
  "stall_session = session [iteration [] 100, iteration [] 105]"

text \<open>The switch to the synchronous FIFO mode fails.\<close>

definition syncff_failed_session :: env where
  "syncff_failed_session = (session [])\<lparr>bitmode_syncff_res := - 1\<rparr>"

text \<open>
  The device sends nothing at first, then a packet that is only the 2-byte header, then
  full packets, one per second.
\<close>

definition quiet_start_session :: env where
  "quiet_start_session =
     session [iteration [] 100, iteration [done_ok 0 2] 101, iteration [done_ok 0 512] 102,
              iteration [done_ok 0 512] 103, iteration [] 108]"

text \<open>A full packet, then a completion of a single byte.\<close>

definition short_packet_session :: env where
  "short_packet_session =
     session [iteration [done_ok 0 512] 100, iteration [done_ok 0 1] 101, iteration [] 106]"

text \<open>
  In one call of the dispatcher a transfer fails and another completes and is
  resubmitted; streaming goes on for one more completion.
\<close>

definition lost_error_session :: env where
  "lost_error_session =
     session [iteration [done_failed 0, done_ok 1 512] 100, iteration [done_ok 1 512] 101,
              iteration [] 106]"

text \<open>A pool of three, where the buffer of the third cannot be allocated.\<close>

definition nomem_session :: env where
  "nomem_session =
     (session [])\<lparr>slot := (\<lambda>k. if k = 2 then ok_slot\<lparr>malloc_ok := False\<rparr> else ok_slot)\<rparr>"

definition sample :: "64 word \<Rightarrow> int \<Rightarrow> size_and_time" where
  "sample b s = \<lparr>total_bytes = b, time = at_second s\<rparr>"

section \<open>Properties\<close>

subsection \<open>Arithmetic of the packet count\<close>

lemma c_div_nonneg: "0 \<le> a \<Longrightarrow> 0 < b \<Longrightarrow> c_div a b = a div b"
  by (cases "a = 0") (simp_all add: c_div_def)

lemma num_packets_bounds:
  assumes "0 < (P::int)"
  shows "((L + P - 1) div P - 1) * P < L" and "L \<le> (L + P - 1) div P * P"
proof -
  let ?a = "L + P - 1"
  have eq: "?a = P * (?a div P) + ?a mod P" by simp
  have m: "0 \<le> ?a mod P" "?a mod P < P" using assms by simp_all
  have "P * (?a div P) \<le> ?a" using eq m(1) by linarith
  then show "((L + P - 1) div P - 1) * P < L" by (simp add: algebra_simps)
  have "?a < P * (?a div P) + P" using eq m(2) by linarith
  then show "L \<le> (L + P - 1) div P * P" by (simp add: algebra_simps)
qed

lemma ceil_div:
  assumes "0 < (P::int)"
  shows "\<lceil>real_of_int L / real_of_int P\<rceil> = (L + P - 1) div P"
proof (rule ceiling_unique)
  let ?n = "(L + P - 1) div P"
  have P: "0 < real_of_int P" using assms by simp
  have "real_of_int ((?n - 1) * P) < real_of_int L"
    using num_packets_bounds(1)[OF assms, of L] by (simp only: of_int_less_iff)
  then show "real_of_int ?n - 1 < real_of_int L / real_of_int P"
    using P by (simp add: pos_less_divide_eq)
  have "real_of_int L \<le> real_of_int (?n * P)"
    using num_packets_bounds(2)[OF assms, of L] by (simp only: of_int_le_iff)
  then show "real_of_int L / real_of_int P \<le> real_of_int ?n"
    using P by (simp add: pos_divide_le_eq)
qed

lemma payload_sum:
  "0 < P \<Longrightarrow> i < n \<Longrightarrow> (n - 1) * P < L \<Longrightarrow> L \<le> n * P \<Longrightarrow>
   (\<Sum>k\<leftarrow>[i..n - 1]. min (L - k * P) P - 2) = (L - i * P) - 2 * (n - i)"
proof (induction "nat (n - 1 - i)" arbitrary: i)
  case 0
  then have i: "i = n - 1" by simp
  have "L - (n - 1) * P \<le> P" using 0(5) by (simp add: algebra_simps)
  then show ?case by (simp add: i)
next
  case (Suc m)
  then have lt: "i + 1 < n" by simp
  have up: "[i..n - 1] = i # [i + 1..n - 1]" using lt by (simp add: upto_rec1)
  have "(i + 1) * P \<le> (n - 1) * P" using lt Suc.prems(1) by (intro mult_right_mono) simp_all
  then have big: "P < L - i * P" using Suc.prems(3) by (simp add: algebra_simps)
  have m: "m = nat (n - 1 - (i + 1))" using Suc.hyps(2) by simp
  show ?case
    using Suc.hyps(1) [OF m Suc.prems(1) lt Suc.prems(3) Suc.prems(4)] big
    by (simp add: up algebra_simps)
qed

subsection \<open>The packet loop\<close>

declare packet_loop.simps [simp del]

lemma callback_calls_append:
  "callback_calls (xs @ ys) = callback_calls xs @ callback_calls ys"
  by (induction xs rule: callback_calls.induct) auto

lemma packet_loop_done:
  "\<not> i < n \<Longrightarrow> packet_loop i n P buf ptr len res st evs = (res, st, evs)"
  by (simp add: packet_loop.simps [of i n])

lemma packet_loop_step:
  "i < n \<Longrightarrow> packet_loop i n P buf ptr len res st evs =
     packet_loop (i + 1) n P buf (ptr + packet_len P len) (len - packet_len P len)
       (packet_res P buf ptr len st) (packet_state P buf ptr len st)
       (evs @ [Callback (packet_call P buf ptr len) (packet_res P buf ptr len st)])"
  by (subst packet_loop.simps)
     (simp add: Let_def packet_len_def packet_call_def packet_res_def packet_state_def
        add_bytes_def)

lemma packet_loop_calls:
  "0 < P \<Longrightarrow> (i < n \<Longrightarrow> len = L - i * P \<and> ptr = i * P) \<Longrightarrow> (n - 1) * P < L \<Longrightarrow>
   callback_calls (snd (snd (packet_loop i n P buf ptr len res st evs))) =
     callback_calls evs @ map (\<lambda>k. Data buf (k * P + 2) (min (L - k * P) P - 2)) [i..n - 1]"
proof (induction "nat (n - i)" arbitrary: i ptr len res st evs)
  case 0
  then show ?case by (simp add: packet_loop_done)
next
  case (Suc m)
  then have lt: "i < n" by simp
  then have len: "len = L - i * P" and ptr: "ptr = i * P" using Suc.prems(2) by simp_all
  have pl: "packet_len P len = min (L - i * P) P" by (simp add: packet_len_def len min_def)
  have nxt: "len - packet_len P len = L - (i + 1) * P \<and> ptr + packet_len P len = (i + 1) * P"
    if a: "i + 1 < n"
  proof -
    have "(i + 1) * P \<le> (n - 1) * P" using a Suc.prems(1) by (intro mult_right_mono) simp_all
    then have "P < len" using Suc.prems(3) by (simp add: len algebra_simps)
    then show ?thesis by (simp add: packet_len_def len ptr algebra_simps)
  qed
  have up: "[i..n - 1] = i # [i + 1..n - 1]" using lt by (simp add: upto_rec1)
  have m: "m = nat (n - (i + 1))" using Suc.hyps(2) by simp
  show ?case
    unfolding packet_loop_step [OF lt]
    by (subst Suc.hyps(1) [OF m Suc.prems(1) nxt Suc.prems(3)])
       (simp_all add: callback_calls_append up packet_call_def pl ptr)
qed

subsection \<open>Packet splitting\<close>

text \<open>
  Claim C1. A completion with success status, actual length \<open>L > 0\<close> and packet size
  \<open>P > 0\<close> makes the handler call the consumer exactly \<open>\<lceil>L / P\<rceil>\<close> times and in no other
  way: call \<open>k\<close> (from 0) is a data delivery for the packet that starts at offset \<open>k * P\<close>
  and has \<open>min (L - k * P) P\<close> bytes, the remaining length capped by the packet size; the
  pointer passed is 2 bytes into the packet and the length passed is the packet length
  minus 2. The lengths passed sum to \<open>L - 2 * \<lceil>L / P\<rceil>\<close>.
\<close>

theorem C1_packet_splitting:
  assumes "0 < L" and "0 < P"
    and "status xfer = LIBUSB_TRANSFER_COMPLETED"
    and "actual_length xfer = L" and "packetsize state = P"
  shows "let n = \<lceil>real_of_int L / real_of_int P\<rceil>;
             calls = callback_calls (snd (ftdi_stream_read_cb sres xfer state))
         in int (length calls) = n
          \<and> calls = map (\<lambda>k. Data (buffer xfer) (k * P + 2) (min (L - k * P) P - 2)) [0..n - 1]
          \<and> sum_list (map payload_length calls) = L - 2 * n"
proof -
  define n where "n = (L + P - 1) div P"
  have ceil: "\<lceil>real_of_int L / real_of_int P\<rceil> = n"
    unfolding n_def by (rule ceil_div [OF assms(2)])
  have cd: "c_div (L + P - 1) P = n"
    unfolding n_def using assms(1,2) by (simp add: c_div_nonneg)
  have lo: "(n - 1) * P < L" and hi: "L \<le> n * P"
    unfolding n_def using num_packets_bounds [OF assms(2), of L] by simp_all
  have npos: "0 < n"
  proof (rule ccontr)
    assume "\<not> 0 < n"
    then have "n * P \<le> 0" using assms(2) by (simp add: mult_le_0_iff)
    then show False using hi assms(1) by simp
  qed
  have calls: "callback_calls (snd (snd (packet_loop 0 n P (buffer xfer) 0 L 0 st []))) =
      map (\<lambda>k. Data (buffer xfer) (k * P + 2) (min (L - k * P) P - 2)) [0..n - 1]" for st :: "'a FTDIStreamState"
    using packet_loop_calls [of P 0 n L L 0 "buffer xfer" 0 st "[]", OF assms(2) _ lo]
    by simp
  have h: "callback_calls (snd (ftdi_stream_read_cb sres xfer state)) =
      map (\<lambda>k. Data (buffer xfer) (k * P + 2) (min (L - k * P) P - 2)) [0..n - 1]"
    by (simp add: ftdi_stream_read_cb_def Let_def assms(3,4,5) cd callback_calls_append calls)
  have len: "int (length [0..n - 1]) = n" using npos by simp
  have sum: "(\<Sum>k\<leftarrow>[0..n - 1]. min (L - k * P) P - 2) = L - 2 * n"
    using payload_sum [OF assms(2) npos lo hi] by simp
  show ?thesis
    unfolding ceil Let_def h using len sum by (simp add: comp_def)
qed

theorem C1_packet_splitting_witness:
  "callback_calls (snd (ftdi_stream_read_cb 0 (completed_xfer 0 1030)
       (initial_state ft232h keep_going ())))
     = [Data zero_buffer 2 510, Data zero_buffer 514 510, Data zero_buffer 1026 4]
   \<and> sum_list (map payload_length
        (callback_calls (snd (ftdi_stream_read_cb 0 (completed_xfer 0 1030)
           (initial_state ft232h keep_going ())))))
     = 1030 - 2 * 3"
proof -
  have c: "\<lceil>real_of_int 1030 / real_of_int 512\<rceil> = (3::int)"
    by (simp add: ceiling_eq_iff)
  have u: "[0..(2::int)] = [0, 1, 2]"
    by (simp add: upto_rec1)
  show ?thesis
    using C1_packet_splitting [of 1030 512 "completed_xfer 0 1030"
        "initial_state ft232h keep_going ()" 0]
    unfolding c Let_def
    by (simp add: completed_xfer_def initial_state_def ft232h_def u)
qed

subsection \<open>What the packet loop leaves alone\<close>



lemma delivery_frame_refl: "delivery_frame st st"
  by (simp add: delivery_frame_def)

lemma delivery_frame_trans:
  "delivery_frame a b \<Longrightarrow> delivery_frame b c \<Longrightarrow> delivery_frame a c"
  by (simp add: delivery_frame_def)

lemma packet_state_frame: "delivery_frame st (packet_state P buf ptr len st)"
  by (simp add: delivery_frame_def packet_state_def add_bytes_def)

lemma packet_loop_frame:
  "delivery_frame st (fst (snd (packet_loop i n P buf ptr len res st evs)))"
proof (induction "nat (n - i)" arbitrary: i ptr len res st evs)
  case 0
  then show ?case by (simp add: packet_loop_done delivery_frame_refl)
next
  case (Suc m)
  then have lt: "i < n" by simp
  have m: "m = nat (n - (i + 1))" using Suc.hyps(2) by simp
  show ?case
    unfolding packet_loop_step [OF lt]
    by (rule delivery_frame_trans [OF packet_state_frame Suc.hyps(1) [OF m]])
qed



lemmas concrete_simps =
  completed_xfer_def failed_xfer_def initial_state_def ft232h_def keep_going_def stop_now_def
  zero_progress_def zero_size_and_time_def zero_timespec_def
  LIBUSB_TRANSFER_COMPLETED_def LIBUSB_ERROR_IO_def LIBUSB_ERROR_INTERRUPTED_def
  LIBUSB_ERROR_NO_MEM_def c_div_def

lemmas handler_simps = ftdi_stream_read_cb_def packet_loop.simps Let_def

subsection \<open>Resubmission or release\<close>




subsection \<open>A final packet of one byte\<close>

lemma packet_loop_last:
  "0 < P \<Longrightarrow> i < n \<Longrightarrow> len = L - i * P \<Longrightarrow> ptr = i * P \<Longrightarrow> (n - 1) * P < L \<Longrightarrow>
   packet_loop i n P buf ptr len res st evs =
     (let l = packet_loop i (n - 1) P buf ptr len res st evs;
          s = fst (snd l);
          r = packet_res P buf ((n - 1) * P) (L - (n - 1) * P) s
      in (r, packet_state P buf ((n - 1) * P) (L - (n - 1) * P) s,
          snd (snd l) @ [Callback (packet_call P buf ((n - 1) * P) (L - (n - 1) * P)) r]))"
proof (induction "nat (n - 1 - i)" arbitrary: i ptr len res st evs)
  case 0
  then have i: "i = n - 1" by simp
  have a: "\<not> i < n - 1" "i < n" "\<not> i + 1 < n" using i by simp_all
  show ?case
    unfolding packet_loop_step [OF a(2)] packet_loop_done [OF a(1)] packet_loop_done [OF a(3)]
    by (simp add: Let_def 0(4,5) i)
next
  case (Suc m)
  then have lt: "i + 1 < n" by simp
  then have lt1: "i < n - 1" and lt0: "i < n" by simp_all
  have "(i + 1) * P \<le> (n - 1) * P" using lt Suc.prems(1) by (intro mult_right_mono) simp_all
  then have big: "P < len" using Suc.prems(5) by (simp add: Suc.prems(3) algebra_simps)
  then have pl: "packet_len P len = P" by (simp add: packet_len_def)
  have m: "m = nat (n - 1 - (i + 1))" using Suc.hyps(2) by simp
  have l': "len - P = L - (i + 1) * P" by (simp add: Suc.prems(3) algebra_simps)
  have p': "ptr + P = (i + 1) * P" by (simp add: Suc.prems(4) algebra_simps)
  show ?case
    unfolding packet_loop_step [OF lt0] packet_loop_step [OF lt1] pl
    by (rule Suc.hyps(1) [OF m Suc.prems(1) lt l' p' Suc.prems(5)])
qed

lemma last_packet_one:
  assumes "0 < (P::int)" and "L mod P = 1" and "(n - 1) * P < L" and "L \<le> n * P"
  shows "L - (n - 1) * P = 1"
proof -
  have eq: "L = P * (L div P) + 1" using assms(2) by (metis mult_div_mod_eq)
  have "(n - 1) * P < P * (L div P) + 1" using assms(3) eq by simp
  then have "(n - 1) * P \<le> (L div P) * P" by (simp add: mult.commute)
  then have a: "n - 1 \<le> L div P" using assms(1) by (simp add: mult_le_cancel_right)
  have "(L div P) * P < n * P" using assms(4) eq by (simp add: mult.commute)
  then have b: "L div P < n" using assms(1) by (simp add: mult_less_cancel_right)
  have q: "L div P = n - 1" using a b by simp
  have "L = P * (n - 1) + 1" using eq unfolding q .
  then show ?thesis by (simp add: algebra_simps)
qed

text \<open>
  Claim C10. When a success completion has \<open>L mod P = 1\<close>, the last call of the consumer
  gets the pointer 2 bytes past the start of the last packet and the length \<open>-1\<close>, and
  \<^verbatim>\<open>progress.current.total_bytes\<close> after the handler is 1 less than it was before the
  final iteration of the packet loop (\<open>before\<close> is the state when the loop is stopped
  one iteration short). The counter is a \<^verbatim>\<open>uint64_t\<close>: the subtraction is modulo
  \<open>2^64\<close>, so a counter that was 0 becomes \<open>2^64 - 1\<close>.
\<close>

theorem C10_short_final_packet:
  assumes "0 < L" and "0 < P" and "L mod P = 1"
    and "status xfer = LIBUSB_TRANSFER_COMPLETED"
    and "actual_length xfer = L" and "packetsize state = P"
  shows "let n = \<lceil>real_of_int L / real_of_int P\<rceil>;
             h = ftdi_stream_read_cb sres xfer state;
             before = fst (snd (packet_loop 0 (n - 1) P (buffer xfer) 0 L 0
                        (state\<lparr>activity := activity state + 1\<rparr>) []))
         in last (callback_calls (snd h)) = Data (buffer xfer) ((n - 1) * P + 2) (- 1)
          \<and> total_bytes (current (progress (fst h)))
              = total_bytes (current (progress before)) - 1"
proof -
  define n where "n = (L + P - 1) div P"
  have ceil: "\<lceil>real_of_int L / real_of_int P\<rceil> = n"
    unfolding n_def by (rule ceil_div [OF assms(2)])
  have cd: "c_div (L + P - 1) P = n"
    unfolding n_def using assms(1,2) by (simp add: c_div_nonneg)
  have lo: "(n - 1) * P < L" and hi: "L \<le> n * P"
    unfolding n_def using num_packets_bounds [OF assms(2), of L] by simp_all
  have npos: "0 < n"
  proof (rule ccontr)
    assume "\<not> 0 < n"
    then have "n * P \<le> 0" using assms(2) by (simp add: mult_le_0_iff)
    then show False using hi assms(1) by simp
  qed
  have one: "L - (n - 1) * P = 1" by (rule last_packet_one [OF assms(2,3) lo hi])
  have pl: "packet_len P 1 = 1" using assms(2) by (simp add: packet_len_def)
  let ?st = "state\<lparr>activity := activity state + 1\<rparr>"
  define l where "l = packet_loop 0 (n - 1) P (buffer xfer) 0 L 0 ?st []"
  have unf: "packet_loop 0 n P (buffer xfer) 0 L 0 ?st [] =
      (packet_res P (buffer xfer) ((n - 1) * P) 1 (fst (snd l)),
       packet_state P (buffer xfer) ((n - 1) * P) 1 (fst (snd l)),
       snd (snd l) @ [Callback (packet_call P (buffer xfer) ((n - 1) * P) 1)
                       (packet_res P (buffer xfer) ((n - 1) * P) 1 (fst (snd l)))])"
    using packet_loop_last [OF assms(2) npos _ _ lo, of L 0 "buffer xfer" 0 ?st "[]"]
    by (simp add: Let_def one l_def)
  have tb: "total_bytes (current (progress (packet_state P (buffer xfer) ((n - 1) * P) 1 (fst (snd l)))))
      = total_bytes (current (progress (fst (snd l)))) - 1"
    by (simp add: packet_state_def add_bytes_def pl)
  have call: "packet_call P (buffer xfer) ((n - 1) * P) 1 = Data (buffer xfer) ((n - 1) * P + 2) (- 1)"
    by (simp add: packet_call_def pl)
  show ?thesis
    unfolding ceil Let_def l_def [symmetric]
    using tb
    by (simp add: ftdi_stream_read_cb_def Let_def assms(4,5,6) cd unf callback_calls_append call)
qed

theorem C10_short_final_packet_witness:
  "last (callback_calls (snd (ftdi_stream_read_cb 0 (completed_xfer 0 513)
      (initial_state ft232h keep_going ())))) = Data zero_buffer 514 (- 1)
   \<and> total_bytes (current (progress (fst (ftdi_stream_read_cb 0 (completed_xfer 0 513)
      (initial_state ft232h keep_going ()))))) = 510 - 1"
proof -
  have c: "\<lceil>real_of_int 513 / real_of_int 512\<rceil> = (2::int)"
    by (simp add: ceiling_eq_iff)
  have before: "total_bytes (current (progress (fst (snd (packet_loop 0 (2 - 1) 512
      (buffer (completed_xfer 0 513)) 0 513 0
      ((initial_state ft232h keep_going ())\<lparr>activity := activity (initial_state ft232h keep_going ()) + 1\<rparr>) []))))) = 510"
    by (simp add: packet_loop.simps Let_def concrete_simps)
  have h: "(0::int) < 513" "(0::int) < 512" "(513::int) mod 512 = 1"
    "status (completed_xfer 0 513) = LIBUSB_TRANSFER_COMPLETED"
    "actual_length (completed_xfer 0 513) = 513"
    "packetsize (initial_state ft232h keep_going ()) = 512"
    by (simp_all add: concrete_simps)
  show ?thesis
    using C10_short_final_packet [OF h, of 0]
    unfolding c Let_def before
    by (simp add: completed_xfer_def)
qed

subsection \<open>Pool setup and the driver loop\<close>

declare setup_loop.simps [simp del]

lemma setup_loop_failed:
  "\<not> fst (setup_loop i n b slots err evs) \<Longrightarrow> fst (snd (setup_loop i n b slots err evs)) \<noteq> 0"
proof (induction "nat (n - i)" arbitrary: i err evs)
  case 0
  then show ?case by (simp add: setup_loop.simps [of i n])
next
  case (Suc m)
  then have lt: "i < n" by simp
  have m: "m = nat (n - (i + 1))" using Suc.hyps(2) by simp
  show ?case
    using Suc.prems Suc.hyps(1) [OF m] lt
    by (subst setup_loop.simps, subst (asm) setup_loop.simps)
       (auto simp: Let_def LIBUSB_ERROR_NO_MEM_def split: if_splits)
qed

lemma setup_loop_ok:
  "slots_ok n slots \<Longrightarrow> 0 \<le> i \<Longrightarrow> err = 0 \<Longrightarrow>
   fst (setup_loop i n b slots err evs) \<and> fst (snd (setup_loop i n b slots err evs)) = 0"
proof (induction "nat (n - i)" arbitrary: i err evs)
  case 0
  then show ?case by (simp add: setup_loop.simps [of i n])
next
  case (Suc m)
  then have lt: "i < n" by simp
  have m: "m = nat (n - (i + 1))" using Suc.hyps(2) by simp
  have ok: "alloc_ok (slots (nat i))" "malloc_ok (slots (nat i))" "submit_res (slots (nat i)) = 0"
    using Suc.prems(1,2) lt by (simp_all add: slots_ok_def)
  show ?case
    using Suc.hyps(1) [OF m Suc.prems(1)] Suc.prems(2) lt ok
    by (subst (1 2) setup_loop.simps) (simp add: Let_def)
qed

lemma driver_loop_left:
  "fst (driver_loop its st) \<Longrightarrow> result (fst (snd (driver_loop its st))) \<noteq> 0"
  by (induction its arbitrary: st) (auto simp: Let_def split: if_splits)

lemma cleanup_nonzero:
  "err \<noteq> 0 \<or> result st \<noteq> 0 \<Longrightarrow> fst (cleanup t err st evs) = Some rc \<Longrightarrow> rc \<noteq> 0"
  by (auto simp: cleanup_def split: if_splits)

subsection \<open>The value returned\<close>

text \<open>
  Claim C2, as amended. Unless the switch to the synchronous FIFO mode fails, every value
  that \<^verbatim>\<open>ftdi_stream_read\<close> returns is nonzero: so it is when the session ends after
  the consumer asked to stop, after an I/O failure, after a stall, and after a failure of
  the capability check, the reset, the flush, an allocation or a submission during setup.
\<close>

theorem C2_nonzero_return:
  assumes syncff: "0 \<le> bitmode_syncff_res e"
    and ret: "fst (ftdi_stream_read ftdi cb ud packets_per_transfer num_transfers e) = Some rc"
  shows "rc \<noteq> 0"
proof -
  let ?s = "setup_loop 0 num_transfers (packets_per_transfer * max_packet_size ftdi) (slot e) 0
              [Calloc_transfers]"
  let ?st = "initial_state ftdi cb ud"
  let ?st1 = "?st\<lparr>progress := (progress ?st)\<lparr>first := (first (progress ?st))\<lparr>time := start_time e\<rparr>\<rparr>\<rparr>"
  let ?r = "driver_loop (dispatch e) ?st1"
  consider (early) "(chip_type ftdi \<noteq> TYPE_2232H \<and> chip_type ftdi \<noteq> TYPE_232H)
        \<or> bitmode_reset_res e < 0 \<or> tcioflush_res e < 0"
    | (nomem) "\<not> ((chip_type ftdi \<noteq> TYPE_2232H \<and> chip_type ftdi \<noteq> TYPE_232H)
        \<or> bitmode_reset_res e < 0 \<or> tcioflush_res e < 0)" "\<not> calloc_ok e"
    | (pool) "\<not> ((chip_type ftdi \<noteq> TYPE_2232H \<and> chip_type ftdi \<noteq> TYPE_232H)
        \<or> bitmode_reset_res e < 0 \<or> tcioflush_res e < 0)" "calloc_ok e" "\<not> fst ?s"
    | (loop) "\<not> ((chip_type ftdi \<noteq> TYPE_2232H \<and> chip_type ftdi \<noteq> TYPE_232H)
        \<or> bitmode_reset_res e < 0 \<or> tcioflush_res e < 0)" "calloc_ok e" "fst ?s"
    by blast
  then show ?thesis
  proof cases
    case early
    then have "fst (ftdi_stream_read ftdi cb ud packets_per_transfer num_transfers e) = Some 1"
      by (auto simp: ftdi_stream_read_def Let_def)
    then show ?thesis using ret by simp
  next
    case nomem
    then have "ftdi_stream_read ftdi cb ud packets_per_transfer num_transfers e =
        cleanup False LIBUSB_ERROR_NO_MEM ?st []"
      by (auto simp: ftdi_stream_read_def Let_def)
    then show ?thesis
      using ret cleanup_nonzero [of LIBUSB_ERROR_NO_MEM ?st False "[]" rc]
      by (simp add: LIBUSB_ERROR_NO_MEM_def)
  next
    case pool
    then have "ftdi_stream_read ftdi cb ud packets_per_transfer num_transfers e =
        cleanup True (fst (snd ?s)) ?st (snd (snd ?s))"
      by (auto simp: ftdi_stream_read_def Let_def)
    then show ?thesis
      using ret setup_loop_failed [OF pool(3)] cleanup_nonzero by metis
  next
    case loop
    show ?thesis
    proof (cases "fst ?r")
      case True
      have "ftdi_stream_read ftdi cb ud packets_per_transfer num_transfers e =
          cleanup True (fst (snd ?s)) (fst (snd ?r)) (snd (snd ?s) @ snd (snd ?r))"
        using loop True syncff by (auto simp: ftdi_stream_read_def Let_def)
      then show ?thesis
        using ret driver_loop_left [OF True] cleanup_nonzero by metis
    next
      case False
      have "fst (ftdi_stream_read ftdi cb ud packets_per_transfer num_transfers e) = None"
        using loop False syncff by (auto simp: ftdi_stream_read_def Let_def)
      then show ?thesis using ret by simp
    qed
  qed
qed

subsection \<open>Iterations without completions\<close>

lemma report_progress_frame:
  "result (fst (report_progress t st)) = result st"
  "activity (fst (report_progress t st)) = activity st"
  by (simp_all add: report_progress_def Let_def)

lemma loop_body_check:
  "result (fst (loop_body it st)) =
     result (stall_check (adopt_error (fst (dispatch_events it st)) (fst (snd (dispatch_events it st)))))"
  "activity (fst (loop_body it st)) =
     activity (stall_check (adopt_error (fst (dispatch_events it st)) (fst (snd (dispatch_events it st)))))"
  by (simp_all add: loop_body_def Let_def report_progress_frame)

lemma dispatch_events_idle:
  "completed it = [] \<Longrightarrow> completed_retry it = [] \<Longrightarrow>
   fst (dispatch_events it st) = dispatch_result it \<and> fst (snd (dispatch_events it st)) = st"
  by (simp add: dispatch_events_def dispatch_result_def Let_def)

lemma loop_body_idle:
  assumes "completed it = []" and "completed_retry it = []"
  shows "result (fst (loop_body it st)) =
           (if activity st = 0 then 1 else if result st = 0 then dispatch_result it else result st)"
    and "activity (fst (loop_body it st)) = 0"
  using dispatch_events_idle [OF assms, of st]
  by (simp_all add: loop_body_check stall_check_def adopt_error_def)

subsection \<open>A failed switch to the streaming mode\<close>

text \<open>
  Claim C9. When the chip is supported, reset and flush succeed, the pointer array and
  all \<open>num_transfers\<close> slots are allocated and submitted, and then the switch to the
  synchronous FIFO mode fails, \<^verbatim>\<open>ftdi_stream_read\<close> goes to \<^verbatim>\<open>cleanup\<close> with \<^verbatim>\<open>err\<close> 0
  and the initial state, whose \<^verbatim>\<open>result\<close> is 0, and returns 0.
\<close>

theorem C9_syncff_failure_returns_zero:
  assumes "chip_type ftdi = TYPE_2232H \<or> chip_type ftdi = TYPE_232H"
    and "0 \<le> bitmode_reset_res e" and "0 \<le> tcioflush_res e" and "calloc_ok e"
    and "slots_ok num_transfers (slot e)"
    and "bitmode_syncff_res e < 0"
  shows "ftdi_stream_read ftdi cb ud packets_per_transfer num_transfers e =
           cleanup True 0 (initial_state ftdi cb ud)
             (snd (snd (setup_loop 0 num_transfers (packets_per_transfer * max_packet_size ftdi)
                (slot e) 0 [Calloc_transfers])))
         \<and> result (initial_state ftdi cb ud) = 0
         \<and> fst (ftdi_stream_read ftdi cb ud packets_per_transfer num_transfers e) = Some 0"
proof -
  let ?s = "setup_loop 0 num_transfers (packets_per_transfer * max_packet_size ftdi) (slot e) 0
              [Calloc_transfers]"
  have s: "fst ?s" "fst (snd ?s) = 0"
    using setup_loop_ok [OF assms(5), of 0 0] by simp_all
  have r: "result (initial_state ftdi cb ud) = 0" by (simp add: initial_state_def)
  have "ftdi_stream_read ftdi cb ud packets_per_transfer num_transfers e =
      cleanup True 0 (initial_state ftdi cb ud) (snd (snd ?s))"
    using assms(1,2,3,4,6) s by (auto simp: ftdi_stream_read_def Let_def)
  then show ?thesis using r by (simp add: cleanup_def)
qed

subsection \<open>The activity counter\<close>

lemma handler_activity:
  "activity (fst (ftdi_stream_read_cb sres xfer st)) = activity st + 1"
proof -
  have "delivery_frame (st\<lparr>activity := activity st + 1\<rparr>)
      (fst (snd (packet_loop 0 n P buf 0 len 0 (st\<lparr>activity := activity st + 1\<rparr>) [])))"
    for n P buf len
    by (rule packet_loop_frame)
  then show ?thesis
    by (simp add: ftdi_stream_read_cb_def Let_def delivery_frame_def)
qed

lemma handle_events_activity:
  "activity (fst (handle_events cs st)) = activity st + int (length cs)"
  by (induction cs arbitrary: st) (simp_all add: Let_def handler_activity)

lemma dispatch_events_activity:
  "activity (fst (snd (dispatch_events it st))) =
     activity st + int (length (completed it))
       + (if xfer_err it = LIBUSB_ERROR_INTERRUPTED then int (length (completed_retry it))
          else 0)"
  by (simp add: dispatch_events_def Let_def handle_events_activity)

lemma adopt_error_activity: "activity (adopt_error e st) = activity st"
  by (simp add: adopt_error_def)

subsection \<open>Stall detection\<close>

text \<open>
  Claim C7. In an iteration of the driver loop, let \<open>at_check\<close> be the state when the
  activity counter is tested: the counter then is its value at the start of the iteration
  plus one for every completion handler that ran in it. If the counter is 0 there, the
  iteration ends with \<^verbatim>\<open>state.result\<close> = 1 and the loop is left after it. Otherwise the
  iteration ends with the counter reset to 0 and with \<^verbatim>\<open>state.result\<close> as it was at the
  test, so the check stops the session only when the counter is 0. Consequently: after a
  complete setup, if the first two iterations dispatch no completion and the dispatcher
  returns 0 in the first (as it does on a timeout), \<^verbatim>\<open>ftdi_stream_read\<close> returns 1, the
  stall status.
\<close>

theorem C7_stall_detection:
  "(let d = dispatch_events it st;
        at_check = adopt_error (fst d) (fst (snd d));
        b = loop_body it st
    in activity at_check =
         activity st + int (length (completed it))
           + (if xfer_err it = LIBUSB_ERROR_INTERRUPTED then int (length (completed_retry it))
              else 0)
     \<and> (activity at_check = 0 \<longrightarrow>
          result (fst b) = 1 \<and> activity (fst b) = 0
          \<and> driver_loop (it # its) st = (True, fst b, snd b))
     \<and> (activity at_check \<noteq> 0 \<longrightarrow>
          activity (fst b) = 0 \<and> result (fst b) = result at_check))
   \<and> ((chip_type ftdi = TYPE_2232H \<or> chip_type ftdi = TYPE_232H)
       \<and> 0 \<le> bitmode_reset_res e \<and> 0 \<le> tcioflush_res e \<and> calloc_ok e
       \<and> slots_ok num_transfers (slot e) \<and> 0 \<le> bitmode_syncff_res e
       \<and> dispatch e = it1 # it2 # rest
       \<and> completed it1 = [] \<and> completed_retry it1 = [] \<and> dispatch_result it1 = 0
       \<and> completed it2 = [] \<and> completed_retry it2 = []
      \<longrightarrow> fst (ftdi_stream_read ftdi cb ud packets_per_transfer num_transfers e) = Some 1)"
proof (intro conjI impI)
  show "let d = dispatch_events it st;
        at_check = adopt_error (fst d) (fst (snd d));
        b = loop_body it st
    in activity at_check =
         activity st + int (length (completed it))
           + (if xfer_err it = LIBUSB_ERROR_INTERRUPTED then int (length (completed_retry it))
              else 0)
     \<and> (activity at_check = 0 \<longrightarrow>
          result (fst b) = 1 \<and> activity (fst b) = 0
          \<and> driver_loop (it # its) st = (True, fst b, snd b))
     \<and> (activity at_check \<noteq> 0 \<longrightarrow>
          activity (fst b) = 0 \<and> result (fst b) = result at_check)"
    by (simp add: Let_def loop_body_check stall_check_def dispatch_events_activity
        adopt_error_activity)
next
  assume a: "(chip_type ftdi = TYPE_2232H \<or> chip_type ftdi = TYPE_232H)
       \<and> 0 \<le> bitmode_reset_res e \<and> 0 \<le> tcioflush_res e \<and> calloc_ok e
       \<and> slots_ok num_transfers (slot e) \<and> 0 \<le> bitmode_syncff_res e
       \<and> dispatch e = it1 # it2 # rest
       \<and> completed it1 = [] \<and> completed_retry it1 = [] \<and> dispatch_result it1 = 0
       \<and> completed it2 = [] \<and> completed_retry it2 = []"
  let ?s = "setup_loop 0 num_transfers (packets_per_transfer * max_packet_size ftdi) (slot e) 0
              [Calloc_transfers]"
  let ?st = "initial_state ftdi cb ud"
  let ?st1 = "?st\<lparr>progress := (progress ?st)\<lparr>first := (first (progress ?st))\<lparr>time := start_time e\<rparr>\<rparr>\<rparr>"
  let ?b1 = "loop_body it1 ?st1"
  let ?b2 = "loop_body it2 (fst ?b1)"
  have s: "fst ?s" "fst (snd ?s) = 0"
    using setup_loop_ok [of num_transfers "slot e" 0 0] a by simp_all
  have r1: "result (fst ?b1) = 0" and a1: "activity (fst ?b1) = 0"
    using loop_body_idle [of it1 ?st1] a by (simp_all add: initial_state_def)
  have r2: "result (fst ?b2) = 1"
    using loop_body_idle(1) [of it2 "fst ?b1"] a a1 by simp
  have d: "driver_loop (dispatch e) ?st1 = (True, fst ?b2, snd ?b1 @ snd ?b2)"
    using a r1 r2 by (simp add: Let_def)
  have "ftdi_stream_read ftdi cb ud packets_per_transfer num_transfers e =
      cleanup True 0 (fst ?b2) (snd (snd ?s) @ snd ?b1 @ snd ?b2)"
    using a s d by (auto simp: ftdi_stream_read_def Let_def)
  then show "fst (ftdi_stream_read ftdi cb ud packets_per_transfer num_transfers e) = Some 1"
    using r2 by (simp add: cleanup_def)
qed

subsection \<open>The chain of progress reports\<close>

lemma reports_append: "reports (xs @ ys) = reports xs @ reports ys"
  by (induction xs rule: reports.induct) auto

lemma report_chain_append:
  "report_chain k (xs @ ys) \<longleftrightarrow> report_chain k xs \<and> report_chain (last_key k xs) ys"
  by (induction xs arbitrary: k) (auto simp: last_key_def)

lemma last_key_append: "last_key k (xs @ ys) = last_key (last_key k xs) ys"
  by (simp add: last_key_def)

lemma report_chain_nth:
  "report_chain k ps \<Longrightarrow> i < length ps \<Longrightarrow>
   report_step (if i = 0 then k else report_key (ps ! (i - 1))) (ps ! i)"
proof (induction ps arbitrary: k i)
  case Nil
  then show ?case by simp
next
  case (Cons p ps)
  show ?case
  proof (cases i)
    case 0
    then show ?thesis using Cons.prems by simp
  next
    case (Suc j)
    then have "report_step (if j = 0 then report_key p else report_key (ps ! (j - 1))) (ps ! j)"
      using Cons.IH [of "report_key p" j] Cons.prems by simp
    then show ?thesis using Suc by (cases j) simp_all
  qed
qed

lemma packet_loop_reports:
  "reports (snd (snd (packet_loop i n P buf ptr len res st evs))) = reports evs"
proof (induction "nat (n - i)" arbitrary: i ptr len res st evs)
  case 0
  then show ?case by (simp add: packet_loop_done)
next
  case (Suc m)
  then have lt: "i < n" by simp
  have m: "m = nat (n - (i + 1))" using Suc.hyps(2) by simp
  show ?case
    unfolding packet_loop_step [OF lt]
    by (simp add: Suc.hyps(1) [OF m] reports_append packet_call_def)
qed

lemma handler_reports: "reports (snd (ftdi_stream_read_cb sres xfer st)) = []"
  by (simp add: ftdi_stream_read_cb_def Let_def reports_append packet_loop_reports)

lemma handler_key:
  "state_key (progress (fst (ftdi_stream_read_cb sres xfer st))) = state_key (progress st)"
proof -
  have "delivery_frame (st\<lparr>activity := activity st + 1\<rparr>)
      (fst (snd (packet_loop 0 n P buf 0 len 0 (st\<lparr>activity := activity st + 1\<rparr>) [])))" for n P buf len
    by (rule packet_loop_frame)
  then show ?thesis
    by (simp add: ftdi_stream_read_cb_def Let_def state_key_def delivery_frame_def)
qed

lemma handle_events_reports: "reports (snd (handle_events cs st)) = []"
  by (induction cs arbitrary: st) (simp_all add: Let_def reports_append handler_reports)

lemma handle_events_key:
  "state_key (progress (fst (handle_events cs st))) = state_key (progress st)"
  by (induction cs arbitrary: st) (simp_all add: Let_def handler_key)

lemma dispatch_events_reports: "reports (snd (snd (dispatch_events it st))) = []"
  by (simp add: dispatch_events_def Let_def reports_append handle_events_reports)

lemma dispatch_events_key:
  "state_key (progress (fst (snd (dispatch_events it st)))) = state_key (progress st)"
  by (simp add: dispatch_events_def Let_def handle_events_key)

lemma check_progress:
  "progress (stall_check (adopt_error e st)) = progress st"
  by (simp add: stall_check_def adopt_error_def)

lemma report_progress_chain:
  "report_chain (state_key (progress st)) (reports (snd (report_progress t st)))
   \<and> state_key (progress (fst (report_progress t st)))
       = last_key (state_key (progress st)) (reports (snd (report_progress t st)))"
  by (simp add: report_progress_def Let_def last_key_def state_key_def report_key_def
      report_step_def rates_computed_def)

lemma loop_body_chain:
  "report_chain (state_key (progress st)) (reports (snd (loop_body it st)))
   \<and> state_key (progress (fst (loop_body it st)))
       = last_key (state_key (progress st)) (reports (snd (loop_body it st)))"
  using report_progress_chain [of "stall_check (adopt_error (fst (dispatch_events it st))
      (fst (snd (dispatch_events it st))))" "now it"]
  by (simp add: loop_body_def Let_def reports_append dispatch_events_reports check_progress
      dispatch_events_key)

lemma driver_loop_chain:
  "report_chain (state_key (progress st)) (reports (snd (snd (driver_loop its st))))"
proof (induction its arbitrary: st)
  case Nil
  then show ?case by simp
next
  case (Cons it its)
  show ?case
    using loop_body_chain [of st it] Cons.IH [of "fst (loop_body it st)"]
    by (simp add: Let_def reports_append report_chain_append)
qed

lemma setup_loop_reports:
  "reports (snd (snd (setup_loop i n b slots err evs))) = reports evs"
proof (induction "nat (n - i)" arbitrary: i err evs)
  case 0
  then show ?case by (simp add: setup_loop.simps [of i n])
next
  case (Suc m)
  then have lt: "i < n" by simp
  have m: "m = nat (n - (i + 1))" using Suc.hyps(2) by simp
  show ?case
    using Suc.hyps(1) [OF m] lt
    by (subst setup_loop.simps) (simp add: Let_def reports_append)
qed

lemma stream_read_events:
  "reports (snd (ftdi_stream_read ftdi cb ud packets_per_transfer num_transfers e)) = []
   \<or> reports (snd (ftdi_stream_read ftdi cb ud packets_per_transfer num_transfers e)) =
       reports (snd (snd (driver_loop (dispatch e) (started ftdi cb ud e))))"
  by (simp add: ftdi_stream_read_def Let_def cleanup_def started_def reports_append
      setup_loop_reports)

lemma stream_read_chain:
  "report_chain (zero_size_and_time, 0, 0)
     (reports (snd (ftdi_stream_read ftdi cb ud packets_per_transfer num_transfers e)))"
proof -
  have k: "state_key (progress (started ftdi cb ud e)) = (zero_size_and_time, 0, 0)"
    by (simp add: started_def initial_state_def zero_progress_def state_key_def)
  show ?thesis
    using stream_read_events [of ftdi cb ud packets_per_transfer num_transfers e]
      driver_loop_chain [of "started ftdi cb ud e" "dispatch e"]
    unfolding k by auto
qed

subsection \<open>When the rates are computed\<close>

text \<open>
  Claim C6, as amended. In the sequence of progress records that a session reports to the
  consumer, the first has \<^verbatim>\<open>prev.total_bytes\<close> 0 and both rates still 0: they are not
  computed. In every later report \<^verbatim>\<open>prev\<close> is the \<^verbatim>\<open>current\<close> sample of the report before;
  both rates are computed when the byte count of the report before is not 0, and keep the
  values of the report before when it is 0.
\<close>

theorem C6_rates_after_nonzero_sample:
  assumes "k < length (reports (snd (ftdi_stream_read ftdi cb ud packets_per_transfer num_transfers e)))"
  shows "let ps = reports (snd (ftdi_stream_read ftdi cb ud packets_per_transfer num_transfers e))
         in (k = 0 \<longrightarrow>
               total_bytes (prev (ps ! 0)) = 0 \<and>
               ftdi_stream_total_rate (ps ! 0) = 0 \<and> ftdi_stream_current_rate (ps ! 0) = 0)
          \<and> (0 < k \<longrightarrow>
               prev (ps ! k) = current (ps ! (k - 1)) \<and>
               (if ftdi_stream_total_bytes (ps ! (k - 1)) \<noteq> 0 then rates_computed (ps ! k)
                else ftdi_stream_total_rate (ps ! k) = ftdi_stream_total_rate (ps ! (k - 1)) \<and>
                     ftdi_stream_current_rate (ps ! k) = ftdi_stream_current_rate (ps ! (k - 1))))"
  using report_chain_nth [OF stream_read_chain assms]
  by (auto simp: Let_def report_step_def report_key_def zero_size_and_time_def
      ftdi_stream_total_rate_def ftdi_stream_current_rate_def ftdi_stream_total_bytes_def
      split: if_splits)

subsection \<open>Evaluating concrete sessions\<close>

lemmas session_simps =
  ok_slot_def at_second_def iteration_def done_ok_def done_failed_def session_def stop_after_def
  started_def

lemmas driver_simps =
  loop_body_def dispatch_events_def adopt_error_def stall_check_def report_progress_def
  timespec_diff_def

lemma stream_read_streaming:
  assumes "chip_type ftdi = TYPE_2232H \<or> chip_type ftdi = TYPE_232H"
    and "0 \<le> bitmode_reset_res e" and "0 \<le> tcioflush_res e" and "calloc_ok e"
    and "slots_ok num_transfers (slot e)" and "0 \<le> bitmode_syncff_res e"
  shows "fst (ftdi_stream_read ftdi cb ud packets_per_transfer num_transfers e) =
           (if fst (driver_loop (dispatch e) (started ftdi cb ud e))
            then Some (result (fst (snd (driver_loop (dispatch e) (started ftdi cb ud e)))))
            else None)"
    and "reports (snd (ftdi_stream_read ftdi cb ud packets_per_transfer num_transfers e)) =
           reports (snd (snd (driver_loop (dispatch e) (started ftdi cb ud e))))"
proof -
  let ?s = "setup_loop 0 num_transfers (packets_per_transfer * max_packet_size ftdi) (slot e) 0
              [Calloc_transfers]"
  have s: "fst ?s" "fst (snd ?s) = 0"
    using setup_loop_ok [OF assms(5), of 0 0] by simp_all
  show "fst (ftdi_stream_read ftdi cb ud packets_per_transfer num_transfers e) =
           (if fst (driver_loop (dispatch e) (started ftdi cb ud e))
            then Some (result (fst (snd (driver_loop (dispatch e) (started ftdi cb ud e)))))
            else None)"
    using assms(1,2,3,4,6) s
    by (auto simp: ftdi_stream_read_def Let_def cleanup_def started_def)
  show "reports (snd (ftdi_stream_read ftdi cb ud packets_per_transfer num_transfers e)) =
           reports (snd (snd (driver_loop (dispatch e) (started ftdi cb ud e))))"
    using assms(1,2,3,4,6) s
    by (auto simp: ftdi_stream_read_def Let_def cleanup_def started_def reports_append
        setup_loop_reports)
qed

lemma session_ok:
  "chip_type ft232h = TYPE_2232H \<or> chip_type ft232h = TYPE_232H"
  "0 \<le> bitmode_reset_res (session its)" "0 \<le> tcioflush_res (session its)"
  "calloc_ok (session its)" "slots_ok n (slot (session its))"
  "0 \<le> bitmode_syncff_res (session its)"
  by (simp_all add: session_def ft232h_def slots_ok_def ok_slot_def)

lemma session_read:
  "fst (ftdi_stream_read ft232h cb ud packets_per_transfer n (session its)) =
     (if fst (driver_loop its (started ft232h cb ud (session its)))
      then Some (result (fst (snd (driver_loop its (started ft232h cb ud (session its))))))
      else None)"
  "reports (snd (ftdi_stream_read ft232h cb ud packets_per_transfer n (session its))) =
     reports (snd (snd (driver_loop its (started ft232h cb ud (session its)))))"
  using stream_read_streaming [where ftdi = ft232h and e = "session its" and num_transfers = n
      and cb = cb and ud = ud and packets_per_transfer = packets_per_transfer, OF session_ok]
  by (simp_all add: session_def)

lemmas eval_simps = session_simps driver_simps handler_simps concrete_simps

text \<open>
  The claim C2 as stated fails: in this session the consumer asks to stop, no transfer
  fails and no call returns an error, and the value returned is not 0.
\<close>

theorem C2_consumer_stop_counterexample:
  "fst (ftdi_stream_read ft232h (stop_after 2) 0 8 2 stop_session) = Some 1"
  unfolding stop_session_def session_read by (simp add: eval_simps)

text \<open>An instance of C2 as amended: a failed transfer ends the session with its error.\<close>

theorem C2_nonzero_return_witness:
  "0 \<le> bitmode_syncff_res io_error_session
   \<and> fst (ftdi_stream_read ft232h keep_going () 8 1 io_error_session) = Some LIBUSB_ERROR_IO
   \<and> LIBUSB_ERROR_IO \<noteq> 0"
proof -
  have a: "0 \<le> bitmode_syncff_res io_error_session"
    by (simp add: io_error_session_def session_def)
  have b: "fst (ftdi_stream_read ft232h keep_going () 8 1 io_error_session) = Some LIBUSB_ERROR_IO"
    unfolding io_error_session_def session_read by (simp add: eval_simps)
  show ?thesis using a b C2_nonzero_return [OF a b] by simp
qed

text \<open>An instance of C9.\<close>

theorem C9_syncff_failure_returns_zero_witness:
  "bitmode_syncff_res syncff_failed_session < 0
   \<and> fst (ftdi_stream_read ft232h keep_going () 8 4 syncff_failed_session) = Some 0"
proof -
  have h: "chip_type ft232h = TYPE_2232H \<or> chip_type ft232h = TYPE_232H"
    "0 \<le> bitmode_reset_res syncff_failed_session" "0 \<le> tcioflush_res syncff_failed_session"
    "calloc_ok syncff_failed_session" "slots_ok 4 (slot syncff_failed_session)"
    "bitmode_syncff_res syncff_failed_session < 0"
    by (simp_all add: syncff_failed_session_def session_def ft232h_def slots_ok_def ok_slot_def)
  show ?thesis
    using C9_syncff_failure_returns_zero [OF h, of keep_going "()" 8] h(6) by blast
qed

text \<open>
  Instances of C7: an iteration entered with the activity counter 0 and no completion,
  the first iteration of a session, an iteration entered with the counter 0 in which one
  transfer completes, and a session of two idle timeouts.
\<close>

theorem C7_stall_detection_witness:
  "result (fst (loop_body (iteration [] 105)
      ((started ft232h keep_going () stall_session)\<lparr>activity := 0\<rparr>))) = 1
   \<and> activity (fst (loop_body (iteration [] 100)
      (started ft232h keep_going () stall_session))) = 0
   \<and> result (fst (loop_body (iteration [] 100)
      (started ft232h keep_going () stall_session))) = 0
   \<and> activity (fst (loop_body (iteration [done_ok 0 512] 105)
      ((started ft232h keep_going () stall_session)\<lparr>activity := 0\<rparr>))) = 0
   \<and> result (fst (loop_body (iteration [done_ok 0 512] 105)
      ((started ft232h keep_going () stall_session)\<lparr>activity := 0\<rparr>))) = 0
   \<and> fst (ftdi_stream_read ft232h keep_going () 8 4 stall_session) = Some 1"
proof -
  let ?st = "started ft232h keep_going () stall_session"
  let ?quiet = "?st\<lparr>activity := 0\<rparr>"
  let ?busy = "iteration [done_ok 0 512] 105"
  have a: "activity (adopt_error (fst (dispatch_events (iteration [] 105) ?quiet))
      (fst (snd (dispatch_events (iteration [] 105) ?quiet)))) = 0"
    by (simp add: eval_simps)
  have b: "activity (adopt_error (fst (dispatch_events (iteration [] 100) ?st))
      (fst (snd (dispatch_events (iteration [] 100) ?st)))) \<noteq> 0"
    "result (adopt_error (fst (dispatch_events (iteration [] 100) ?st))
      (fst (snd (dispatch_events (iteration [] 100) ?st)))) = 0"
    by (simp_all add: eval_simps)
  have c: "activity (adopt_error (fst (dispatch_events ?busy ?quiet))
      (fst (snd (dispatch_events ?busy ?quiet)))) \<noteq> 0"
    "result (adopt_error (fst (dispatch_events ?busy ?quiet))
      (fst (snd (dispatch_events ?busy ?quiet)))) = 0"
    by (simp_all add: eval_simps)
  have h: "(chip_type ft232h = TYPE_2232H \<or> chip_type ft232h = TYPE_232H)
       \<and> 0 \<le> bitmode_reset_res stall_session \<and> 0 \<le> tcioflush_res stall_session
       \<and> calloc_ok stall_session
       \<and> slots_ok 4 (slot stall_session) \<and> 0 \<le> bitmode_syncff_res stall_session
       \<and> dispatch stall_session = iteration [] 100 # iteration [] 105 # []
       \<and> completed (iteration [] 100) = [] \<and> completed_retry (iteration [] 100) = []
       \<and> dispatch_result (iteration [] 100) = 0
       \<and> completed (iteration [] 105) = [] \<and> completed_retry (iteration [] 105) = []"
    by (simp add: stall_session_def session_def ft232h_def slots_ok_def ok_slot_def
        iteration_def dispatch_result_def LIBUSB_ERROR_INTERRUPTED_def)
  note t1 = C7_stall_detection [of "iteration [] 105" ?quiet "[]" ft232h stall_session 4
        "iteration [] 100" "iteration [] 105" "[]" keep_going "()" 8, unfolded Let_def]
  note t2 = C7_stall_detection [of "iteration [] 100" ?st "[]" ft232h stall_session 4
        "iteration [] 100" "iteration [] 105" "[]" keep_going "()" 8, unfolded Let_def]
  note t3 = C7_stall_detection [of ?busy ?quiet "[]" ft232h stall_session 4
        "iteration [] 100" "iteration [] 105" "[]" keep_going "()" 8, unfolded Let_def]
  have r1: "result (fst (loop_body (iteration [] 105) ?quiet)) = 1"
    using t1 a by blast
  have r2: "activity (fst (loop_body (iteration [] 100) ?st)) = 0"
    "result (fst (loop_body (iteration [] 100) ?st)) =
       result (adopt_error (fst (dispatch_events (iteration [] 100) ?st))
         (fst (snd (dispatch_events (iteration [] 100) ?st))))"
    using t2 b(1) by blast+
  have r3: "activity (fst (loop_body ?busy ?quiet)) = 0"
    "result (fst (loop_body ?busy ?quiet)) =
       result (adopt_error (fst (dispatch_events ?busy ?quiet))
         (fst (snd (dispatch_events ?busy ?quiet))))"
    using t3 c(1) by blast+
  have r4: "fst (ftdi_stream_read ft232h keep_going () 8 4 stall_session) = Some 1"
    using t1 h by blast
  show ?thesis
    using r1 r2 r3 r4 b(2) c(2) by simp
qed

lemma quiet_start_reports:
  "reports (snd (ftdi_stream_read ft232h keep_going () 8 1 quiet_start_session)) =
     [\<lparr>first = sample 0 100, prev = sample 0 0, current = sample 0 100,
       total_time = 0, total_rate = 0, current_rate = 0\<rparr>,
      \<lparr>first = sample 0 100, prev = sample 0 100, current = sample 0 101,
       total_time = 1, total_rate = 0, current_rate = 0\<rparr>,
      \<lparr>first = sample 0 100, prev = sample 0 101, current = sample 510 102,
       total_time = 2, total_rate = 0, current_rate = 0\<rparr>,
      \<lparr>first = sample 0 100, prev = sample 510 102, current = sample 1020 103,
       total_time = 3, total_rate = 340, current_rate = 510\<rparr>,
      \<lparr>first = sample 0 100, prev = sample 1020 103, current = sample 1020 108,
       total_time = 8, total_rate = 255 / 2, current_rate = 0\<rparr>]"
  unfolding quiet_start_session_def session_read
  by (simp add: eval_simps sample_def)

lemmas report_simps =
  sample_def at_second_def rates_computed_def timespec_diff_def
  ftdi_stream_total_bytes_def ftdi_stream_total_time_def ftdi_stream_total_rate_def
  ftdi_stream_current_rate_def

text \<open>
  The claim C6 as stated fails: the third report of this session, two seconds after its
  start, counts 510 bytes and has both rates still 0. They were not computed, because the
  report before counted no byte.
\<close>

theorem C6_rates_not_computed_counterexample:
  "length (reports (snd (ftdi_stream_read ft232h keep_going () 8 1 quiet_start_session))) = 5
   \<and> ftdi_stream_total_bytes
        (reports (snd (ftdi_stream_read ft232h keep_going () 8 1 quiet_start_session)) ! 2) = 510
   \<and> ftdi_stream_total_time
        (reports (snd (ftdi_stream_read ft232h keep_going () 8 1 quiet_start_session)) ! 2) = 2
   \<and> ftdi_stream_total_rate
        (reports (snd (ftdi_stream_read ft232h keep_going () 8 1 quiet_start_session)) ! 2) = 0
   \<and> ftdi_stream_current_rate
        (reports (snd (ftdi_stream_read ft232h keep_going () 8 1 quiet_start_session)) ! 2) = 0
   \<and> \<not> rates_computed
        (reports (snd (ftdi_stream_read ft232h keep_going () 8 1 quiet_start_session)) ! 2)"
  unfolding quiet_start_reports by (simp add: report_simps)

text \<open>Instances of C6 as amended: the first, third and fourth report of that session.\<close>

theorem C6_rates_after_nonzero_sample_witness:
  "ftdi_stream_total_rate
     (reports (snd (ftdi_stream_read ft232h keep_going () 8 1 quiet_start_session)) ! 0) = 0
   \<and> ftdi_stream_current_rate
     (reports (snd (ftdi_stream_read ft232h keep_going () 8 1 quiet_start_session)) ! 0) = 0
   \<and> ftdi_stream_total_bytes
     (reports (snd (ftdi_stream_read ft232h keep_going () 8 1 quiet_start_session)) ! 1) = 0
   \<and> ftdi_stream_total_rate
     (reports (snd (ftdi_stream_read ft232h keep_going () 8 1 quiet_start_session)) ! 2) =
       ftdi_stream_total_rate
     (reports (snd (ftdi_stream_read ft232h keep_going () 8 1 quiet_start_session)) ! 1)
   \<and> ftdi_stream_total_bytes
     (reports (snd (ftdi_stream_read ft232h keep_going () 8 1 quiet_start_session)) ! 2) \<noteq> 0
   \<and> rates_computed
     (reports (snd (ftdi_stream_read ft232h keep_going () 8 1 quiet_start_session)) ! 3)"
proof -
  let ?ps = "reports (snd (ftdi_stream_read ft232h keep_going () 8 1 quiet_start_session))"
  have len: "0 < length ?ps" "2 < length ?ps" "3 < length ?ps"
    unfolding quiet_start_reports by simp_all
  have b: "ftdi_stream_total_bytes (?ps ! 1) = 0" "ftdi_stream_total_bytes (?ps ! 2) \<noteq> 0"
    unfolding quiet_start_reports by (simp_all add: report_simps)
  have n: "(2::nat) - 1 = 1" "(3::nat) - 1 = 2" by simp_all
  show ?thesis
    using C6_rates_after_nonzero_sample [OF len(1)] C6_rates_after_nonzero_sample [OF len(2)]
      C6_rates_after_nonzero_sample [OF len(3)] b
    unfolding Let_def n by simp
qed

subsection \<open>Where the code departs from the claims\<close>

lemma short_packet_reports:
  "reports (snd (ftdi_stream_read ft232h keep_going () 8 1 short_packet_session)) =
     [\<lparr>first = sample 0 100, prev = sample 0 0, current = sample 510 100,
       total_time = 0, total_rate = 0, current_rate = 0\<rparr>,
      \<lparr>first = sample 0 100, prev = sample 510 100, current = sample 509 101,
       total_time = 1, total_rate = 509, current_rate = 18446744073709551615\<rparr>,
      \<lparr>first = sample 0 100, prev = sample 509 101, current = sample 509 106,
       total_time = 6, total_rate = 509 / 6, current_rate = 0\<rparr>]"
  unfolding short_packet_session_def session_read
  by (simp add: eval_simps sample_def unsigned_minus_1_eq_mask mask_eq_exp_minus_1)

text \<open>
  Claim C5 does not hold of the code. A completion of a single byte makes the payload
  length \<open>-1\<close>: the first report of this session counts 510 bytes, and the second counts
  509 with \<^verbatim>\<open>prev.total_bytes\<close> 510, so \<^verbatim>\<open>current.total_bytes\<close> went down and is below
  \<^verbatim>\<open>prev.total_bytes\<close>; the rate computed from their difference is \<open>2^64 - 1\<close>.
\<close>

theorem C5_total_bytes_decreases:
  "ftdi_stream_total_bytes
     (reports (snd (ftdi_stream_read ft232h keep_going () 8 1 short_packet_session)) ! 0) = 510
   \<and> total_bytes (prev
     (reports (snd (ftdi_stream_read ft232h keep_going () 8 1 short_packet_session)) ! 1)) = 510
   \<and> ftdi_stream_total_bytes
     (reports (snd (ftdi_stream_read ft232h keep_going () 8 1 short_packet_session)) ! 1) = 509
   \<and> ftdi_stream_current_rate
     (reports (snd (ftdi_stream_read ft232h keep_going () 8 1 short_packet_session)) ! 1)
       = 18446744073709551615"
  unfolding short_packet_reports by (simp add: report_simps)

text \<open>
  Claim C3 does not hold of the code. The handler stores the value of every resubmission
  in \<^verbatim>\<open>state.result\<close>: after a failed transfer has set it to \<^verbatim>\<open>LIBUSB_ERROR_IO\<close>, the
  successful resubmission of the next completion in the same dispatch sets it back to 0,
  the loop goes on, and the session ends with 1 from the stall check.
\<close>

theorem C3_error_overwritten:
  "result (fst (handle_events [done_failed 0]
      (started ft232h keep_going () lost_error_session))) = LIBUSB_ERROR_IO
   \<and> result (fst (handle_events [done_failed 0, done_ok 1 512]
      (started ft232h keep_going () lost_error_session))) = 0
   \<and> fst (ftdi_stream_read ft232h keep_going () 8 2 lost_error_session) = Some 1"
proof -
  have a: "result (fst (handle_events [done_failed 0]
      (started ft232h keep_going () lost_error_session))) = LIBUSB_ERROR_IO"
    by (simp add: lost_error_session_def eval_simps)
  have b: "result (fst (handle_events [done_failed 0, done_ok 1 512]
      (started ft232h keep_going () lost_error_session))) = 0"
    by (simp add: lost_error_session_def eval_simps)
  have c: "fst (ftdi_stream_read ft232h keep_going () 8 2 lost_error_session) = Some 1"
    unfolding lost_error_session_def session_read by (simp add: eval_simps)
  show ?thesis using a b c by simp
qed

lemma nomem_setup:
  "setup_loop 0 3 (8 * max_packet_size ft232h) (slot nomem_session) 0 [Calloc_transfers] =
     (False, LIBUSB_ERROR_NO_MEM,
      [Calloc_transfers, Alloc_transfer 0, Malloc_buffer 0 4096, Submit_transfer 0,
       Alloc_transfer 1, Malloc_buffer 1 4096, Submit_transfer 1, Alloc_transfer 2])"
  by (simp add: nomem_session_def setup_loop.simps Let_def eval_simps)

text \<open>
  Claim C8 does not hold of the code. When the buffer of the third slot cannot be
  allocated, the only release on the way out is that of the pointer array: the two
  submitted transfers, their buffers and the third transfer object are never freed.
\<close>

theorem C8_setup_failure_frees_no_transfer:
  "ftdi_stream_read ft232h keep_going () 8 3 nomem_session =
     (Some LIBUSB_ERROR_NO_MEM,
      [Calloc_transfers, Alloc_transfer 0, Malloc_buffer 0 4096, Submit_transfer 0,
       Alloc_transfer 1, Malloc_buffer 1 4096, Submit_transfer 1, Alloc_transfer 2,
       Free_transfers])"
proof -
  have e: "chip_type ft232h = TYPE_232H" "bitmode_reset_res nomem_session = 0"
    "tcioflush_res nomem_session = 0" "calloc_ok nomem_session"
    by (simp_all add: nomem_session_def session_def ft232h_def)
  show ?thesis
    by (simp add: ftdi_stream_read_def Let_def e nomem_setup cleanup_def LIBUSB_ERROR_NO_MEM_def)
qed

end
